theory Spec2Isabelle
  imports Main "HOL-Library.Sublist" "HOL-Library.Char_ord" "HOL-Library.List_Lexorder"
begin

section \<open>Publication records\<close>

text \<open>
  The component \<^verbatim>\<open>PublicationsList.tsx\<close> receives an array of \<^verbatim>\<open>Publication\<close> objects and
  derives from it the year options, the type options and the filtered list, and renders one
  entry for each record of the filtered list. Strings are byte strings; the model is exact
  on ASCII text.
\<close>

record author =
  name :: string

text \<open>
  Modelled from the spec: the type \<^verbatim>\<open>Publication\<close> of \<^verbatim>\<open>@/types/publication\<close>, whose
  declaration is not among the sources. The record follows the data model of section 3 of
  the specification: \<^verbatim>\<open>title\<close>, \<^verbatim>\<open>journal\<close>, \<^verbatim>\<open>conference\<close>, \<^verbatim>\<open>description\<close>, \<^verbatim>\<open>abstract\<close> and
  \<^verbatim>\<open>bibtex\<close> are optional strings (\<open>None\<close> is the \<^verbatim>\<open>undefined\<close> of JavaScript), \<^verbatim>\<open>authors\<close>
  is a sequence of objects with a name, \<^verbatim>\<open>year\<close> is an integer and \<^verbatim>\<open>hidden_bib\<close> a boolean.
  The fields \<^verbatim>\<open>id\<close> and \<^verbatim>\<open>type\<close> are called \<open>pub_id\<close> and \<open>pub_type\<close> here, since \<open>id\<close> is the
  identity function of HOL.
\<close>

record publication =
  pub_id :: string
  pub_type :: string
  title :: "string option"
  authors :: "author list"
  year :: int
  journal :: "string option"
  conference :: "string option"
  description :: "string option"
  abstract :: "string option"
  bibtex :: "string option"
  hidden_bib :: bool

text \<open>
  The only exception the component can raise while filtering: reading a property of
  \<^verbatim>\<open>undefined\<close>.
\<close>

datatype error = TypeError

section \<open>The JavaScript built-ins the component calls\<close>

text \<open>
  \<^verbatim>\<open>String.prototype.toLowerCase\<close> on ASCII strings: the letters \<^verbatim>\<open>A\<close> to \<^verbatim>\<open>Z\<close> become \<^verbatim>\<open>a\<close> to
  \<^verbatim>\<open>z\<close> and every other character stays as it is. The built-in follows the Unicode case
  mappings, which reach beyond these letters and depend on the context (the final sigma);
  that part is not modelled. A statement that depends on how a non-empty string is
  lower-cased is therefore made for ASCII strings only (\<open>is_ascii\<close> below).
\<close>

definition upper_letters :: string where
  "upper_letters = ''ABCDEFGHIJKLMNOPQRSTUVWXYZ''"

definition lower_letters :: string where
  "lower_letters = ''abcdefghijklmnopqrstuvwxyz''"

definition toLowerChar :: "char \<Rightarrow> char" where
  "toLowerChar c = (case map_of (zip upper_letters lower_letters) c of
                      None \<Rightarrow> c
                    | Some l \<Rightarrow> l)"

definition toLowerCase :: "string \<Rightarrow> string" where
  "toLowerCase s = map toLowerChar s"

text \<open>
  \<^verbatim>\<open>s.includes(q)\<close>: some position of \<open>s\<close> starts an occurrence of \<open>q\<close>. The empty
  string occurs in every string.
\<close>

fun includesStr :: "string \<Rightarrow> string \<Rightarrow> bool" where
  "includesStr [] q = (q = [])"
| "includesStr (c # cs) q = (prefix q (c # cs) \<or> includesStr cs q)"

text \<open>\<^verbatim>\<open>arr.some(f)\<close> for a callback that cannot throw.\<close>

definition some :: "('a \<Rightarrow> bool) \<Rightarrow> 'a list \<Rightarrow> bool" where
  "some f arr = list_ex f arr"

text \<open>
  \<^verbatim>\<open>arr.filter(f)\<close>: the callback is called on the elements from left to right, an
  exception thrown by the callback ends the call, and the elements on which the callback
  was truthy are collected in a new array.
\<close>

fun array_filter :: "('a \<Rightarrow> error + bool) \<Rightarrow> 'a list \<Rightarrow> error + 'a list" where
  "array_filter f [] = Inr []"
| "array_filter f (x # xs) =
     (case f x of
        Inl e \<Rightarrow> Inl e
      | Inr keep \<Rightarrow>
          (case array_filter f xs of
             Inl e \<Rightarrow> Inl e
           | Inr ys \<Rightarrow> Inr (if keep then x # ys else ys)))"

text \<open>
  \<^verbatim>\<open>new Set(arr)\<close> keeps the first occurrence of every value, in insertion order, and
  \<^verbatim>\<open>Array.from\<close> lists the members in that order.
\<close>

definition set_add :: "'a list \<Rightarrow> 'a \<Rightarrow> 'a list" where
  "set_add s x = (if x \<in> set s then s else s @ [x])"

definition new_Set :: "'a list \<Rightarrow> 'a list" where
  "new_Set arr = foldl set_add [] arr"

definition Array_from :: "'a list \<Rightarrow> 'a list" where
  "Array_from s = s"

text \<open>
  \<^verbatim>\<open>arr.sort(cmp)\<close>: a stable sort by the comparator, \<open>x\<close> before \<open>y\<close> when
  \<open>cmp x y \<le> 0\<close>. Written as an insertion sort that puts each element in front of
  the sorted rest of the array.
\<close>

fun insert_cmp :: "('a \<Rightarrow> 'a \<Rightarrow> int) \<Rightarrow> 'a \<Rightarrow> 'a list \<Rightarrow> 'a list" where
  "insert_cmp cmp x [] = [x]"
| "insert_cmp cmp x (y # ys) =
     (if cmp x y \<le> 0 then x # y # ys else y # insert_cmp cmp x ys)"

definition sort_cmp :: "('a \<Rightarrow> 'a \<Rightarrow> int) \<Rightarrow> 'a list \<Rightarrow> 'a list" where
  "sort_cmp cmp arr = foldr (insert_cmp cmp) arr []"

text \<open>
  \<^verbatim>\<open>arr.sort()\<close> without a comparator compares the elements as strings, code unit by
  code unit.
\<close>

definition default_compare :: "string \<Rightarrow> string \<Rightarrow> int" where
  "default_compare a b = (if a < b then - 1 else if b < a then 1 else 0)"

section \<open>The derived values of the component\<close>

text \<open>The state \<^verbatim>\<open>selectedYear\<close> is a number or the string \<^verbatim>\<open>'all'\<close>.\<close>

datatype year_selection = AllYears | Year int

text \<open>
  \<^verbatim>\<open>years\<close> (lines 42 to 45) and \<^verbatim>\<open>types\<close> (lines 47 to 50).
\<close>

definition years :: "publication list \<Rightarrow> int list" where
  "years publications =
     (let uniqueYears = Array_from (new_Set (map year publications))
      in sort_cmp (\<lambda>a b. b - a) uniqueYears)"

definition types :: "publication list \<Rightarrow> string list" where
  "types publications =
     (let uniqueTypes = Array_from (new_Set (map pub_type publications))
      in sort_cmp default_compare uniqueTypes)"

text \<open>
  \<^verbatim>\<open>matchesSearch\<close> (lines 55 to 59). \<^verbatim>\<open>pub.title.toLowerCase()\<close> reads a property of
  \<^verbatim>\<open>pub.title\<close> and throws when the title is \<^verbatim>\<open>undefined\<close>; \<^verbatim>\<open>pub.journal?.\<close> and
  \<^verbatim>\<open>pub.conference?.\<close> yield \<^verbatim>\<open>undefined\<close>, which is falsy, when the field is absent.
\<close>

definition matchesSearch :: "string \<Rightarrow> publication \<Rightarrow> error + bool" where
  "matchesSearch searchQuery pub =
     (case title pub of
        None \<Rightarrow> Inl TypeError
      | Some t \<Rightarrow>
          Inr (includesStr (toLowerCase t) (toLowerCase searchQuery) \<or>
               some (\<lambda>a. includesStr (toLowerCase (name a)) (toLowerCase searchQuery)) (authors pub) \<or>
               (case journal pub of
                  None \<Rightarrow> False
                | Some j \<Rightarrow> includesStr (toLowerCase j) (toLowerCase searchQuery)) \<or>
               (case conference pub of
                  None \<Rightarrow> False
                | Some c \<Rightarrow> includesStr (toLowerCase c) (toLowerCase searchQuery))))"

text \<open>\<^verbatim>\<open>matchesYear\<close> (line 61) and \<^verbatim>\<open>matchesType\<close> (line 62).\<close>

definition matchesYear :: "year_selection \<Rightarrow> publication \<Rightarrow> bool" where
  "matchesYear selectedYear pub =
     (case selectedYear of AllYears \<Rightarrow> True | Year y \<Rightarrow> year pub = y)"

definition matchesType :: "string \<Rightarrow> publication \<Rightarrow> bool" where
  "matchesType selectedType pub = (selectedType = ''all'' \<or> pub_type pub = selectedType)"

text \<open>The callback of the filter (lines 54 to 65) and \<^verbatim>\<open>filteredPublications\<close>.\<close>

definition keeps :: "string \<Rightarrow> year_selection \<Rightarrow> string \<Rightarrow> publication \<Rightarrow> error + bool" where
  "keeps searchQuery selectedYear selectedType pub =
     (case matchesSearch searchQuery pub of
        Inl e \<Rightarrow> Inl e
      | Inr ms \<Rightarrow> Inr (ms \<and> matchesYear selectedYear pub \<and> matchesType selectedType pub))"

definition filteredPublications ::
  "publication list \<Rightarrow> string \<Rightarrow> year_selection \<Rightarrow> string \<Rightarrow> error + publication list" where
  "filteredPublications publications searchQuery selectedYear selectedType =
     array_filter (keeps searchQuery selectedYear selectedType) publications"

section \<open>The rendering of one entry\<close>

text \<open>
  The two pieces of state the rendering of an entry reads: \<^verbatim>\<open>expandedBibtexId\<close> and
  \<^verbatim>\<open>expandedAbstractId\<close>, each the id of a publication or \<^verbatim>\<open>null\<close>.
\<close>

record expansion =
  expandedBibtexId :: "string option"
  expandedAbstractId :: "string option"

text \<open>
  What an entry of the list can show (lines 198 to 274): the heading, the line of authors,
  the line of the venue and year, the description, the two toggle buttons, and the two
  panels; the BibTeX panel holds the text and a copy button.
\<close>

datatype element =
    Heading "string option"
  | AuthorsLine string
  | VenueLine "string option" int
  | Description string
  | AbstractButton
  | BibtexButton
  | AbstractPanel string
  | BibtexPanel string
  | CopyButton

text \<open>\<^verbatim>\<open>names.join(', ')\<close>.\<close>

fun join :: "string \<Rightarrow> string list \<Rightarrow> string" where
  "join sep [] = []"
| "join sep [x] = x"
| "join sep (x # y # ys) = x @ sep @ join sep (y # ys)"

text \<open>
  An optional string is truthy when it is present and not empty; \<^verbatim>\<open>s && e\<close> renders \<open>e\<close>
  for a truthy \<open>s\<close> and nothing otherwise.
\<close>

definition truthy :: "string option \<Rightarrow> bool" where
  "truthy s = (case s of None \<Rightarrow> False | Some v \<Rightarrow> v \<noteq> [])"

definition shown :: "string option \<Rightarrow> (string \<Rightarrow> element list) \<Rightarrow> element list" where
  "shown s e = (case s of None \<Rightarrow> [] | Some v \<Rightarrow> if v \<noteq> [] then e v else [])"

definition renderEntry :: "expansion \<Rightarrow> publication \<Rightarrow> element list" where
  "renderEntry st pub =
     [Heading (title pub),
      AuthorsLine (join '', '' (map name (authors pub))),
      VenueLine (if truthy (journal pub) then journal pub else conference pub) (year pub)] @
     shown (description pub) (\<lambda>d. [Description d]) @
     shown (abstract pub) (\<lambda>a. [AbstractButton]) @
     shown (bibtex pub) (\<lambda>b. if \<not> hidden_bib pub then [BibtexButton] else []) @
     (if expandedAbstractId st = Some (pub_id pub)
      then shown (abstract pub) (\<lambda>a. [AbstractPanel a]) else []) @
     (if expandedBibtexId st = Some (pub_id pub)
      then shown (bibtex pub) (\<lambda>b. if \<not> hidden_bib pub then [BibtexPanel b, CopyButton] else [])
      else [])"

section \<open>Arrays as objects in a store\<close>

text \<open>
  JavaScript arrays are objects reached by reference, and \<^verbatim>\<open>sort\<close> reorders its receiver in
  place, whereas \<^verbatim>\<open>map\<close>, \<^verbatim>\<open>filter\<close> and \<^verbatim>\<open>Array.from\<close> build a new array. To say what the
  derivations do to the array they are given, arrays live in a store of cells; a new array
  takes the next free reference.
\<close>

datatype jsarray = Pubs "publication list" | Nums "int list" | Strs "string list"

type_synonym ref = nat

record store =
  cells :: "ref \<Rightarrow> jsarray option"
  next_ref :: ref

definition alloc :: "jsarray \<Rightarrow> store \<Rightarrow> ref \<times> store" where
  "alloc v s = (next_ref s, s\<lparr>cells := (cells s)(next_ref s \<mapsto> v), next_ref := Suc (next_ref s)\<rparr>)"

definition get_pubs :: "store \<Rightarrow> ref \<Rightarrow> publication list option" where
  "get_pubs s r = (case cells s r of Some (Pubs ps) \<Rightarrow> Some ps | _ \<Rightarrow> None)"

definition get_nums :: "store \<Rightarrow> ref \<Rightarrow> int list option" where
  "get_nums s r = (case cells s r of Some (Nums xs) \<Rightarrow> Some xs | _ \<Rightarrow> None)"

definition get_strs :: "store \<Rightarrow> ref \<Rightarrow> string list option" where
  "get_strs s r = (case cells s r of Some (Strs xs) \<Rightarrow> Some xs | _ \<Rightarrow> None)"

text \<open>
  The operations on references. Each yields \<open>None\<close> when the reference does not hold an
  array of the kind the operation reads, which the types of the component exclude.
  \<open>sort_nums_at\<close> and \<open>sort_strs_at\<close> overwrite the cell of their receiver and return the same
  reference.
\<close>

definition map_year_at :: "ref \<Rightarrow> store \<Rightarrow> (ref \<times> store) option" where
  "map_year_at r s =
     (case get_pubs s r of None \<Rightarrow> None | Some ps \<Rightarrow> Some (alloc (Nums (map year ps)) s))"

definition map_type_at :: "ref \<Rightarrow> store \<Rightarrow> (ref \<times> store) option" where
  "map_type_at r s =
     (case get_pubs s r of None \<Rightarrow> None | Some ps \<Rightarrow> Some (alloc (Strs (map pub_type ps)) s))"

definition unique_nums_at :: "ref \<Rightarrow> store \<Rightarrow> (ref \<times> store) option" where
  "unique_nums_at r s =
     (case get_nums s r of None \<Rightarrow> None
      | Some xs \<Rightarrow> Some (alloc (Nums (Array_from (new_Set xs))) s))"

definition unique_strs_at :: "ref \<Rightarrow> store \<Rightarrow> (ref \<times> store) option" where
  "unique_strs_at r s =
     (case get_strs s r of None \<Rightarrow> None
      | Some xs \<Rightarrow> Some (alloc (Strs (Array_from (new_Set xs))) s))"

definition sort_nums_at :: "(int \<Rightarrow> int \<Rightarrow> int) \<Rightarrow> ref \<Rightarrow> store \<Rightarrow> (ref \<times> store) option" where
  "sort_nums_at cmp r s =
     (case get_nums s r of None \<Rightarrow> None
      | Some xs \<Rightarrow> Some (r, s\<lparr>cells := (cells s)(r \<mapsto> Nums (sort_cmp cmp xs))\<rparr>))"

definition sort_strs_at :: "ref \<Rightarrow> store \<Rightarrow> (ref \<times> store) option" where
  "sort_strs_at r s =
     (case get_strs s r of None \<Rightarrow> None
      | Some xs \<Rightarrow> Some (r, s\<lparr>cells := (cells s)(r \<mapsto> Strs (sort_cmp default_compare xs))\<rparr>))"

definition filter_at ::
  "(publication \<Rightarrow> error + bool) \<Rightarrow> ref \<Rightarrow> store \<Rightarrow> ((error + ref) \<times> store) option" where
  "filter_at f r s =
     (case get_pubs s r of None \<Rightarrow> None
      | Some ps \<Rightarrow>
          (case array_filter f ps of
             Inl e \<Rightarrow> Some (Inl e, s)
           | Inr out \<Rightarrow> (case alloc (Pubs out) s of (r', s') \<Rightarrow> Some (Inr r', s'))))"

text \<open>The three derivations of the component on the store, and the three in a row.\<close>

definition years_at :: "ref \<Rightarrow> store \<Rightarrow> (ref \<times> store) option" where
  "years_at publications s =
     (case map_year_at publications s of None \<Rightarrow> None
      | Some (mapped, s1) \<Rightarrow>
          (case unique_nums_at mapped s1 of None \<Rightarrow> None
           | Some (uniqueYears, s2) \<Rightarrow> sort_nums_at (\<lambda>a b. b - a) uniqueYears s2))"

definition types_at :: "ref \<Rightarrow> store \<Rightarrow> (ref \<times> store) option" where
  "types_at publications s =
     (case map_type_at publications s of None \<Rightarrow> None
      | Some (mapped, s1) \<Rightarrow>
          (case unique_strs_at mapped s1 of None \<Rightarrow> None
           | Some (uniqueTypes, s2) \<Rightarrow> sort_strs_at uniqueTypes s2))"

definition filteredPublications_at ::
  "ref \<Rightarrow> string \<Rightarrow> year_selection \<Rightarrow> string \<Rightarrow> store \<Rightarrow> ((error + ref) \<times> store) option" where
  "filteredPublications_at publications searchQuery selectedYear selectedType s =
     filter_at (keeps searchQuery selectedYear selectedType) publications s"

definition derive_at ::
  "ref \<Rightarrow> string \<Rightarrow> year_selection \<Rightarrow> string \<Rightarrow> store \<Rightarrow>
     ((ref \<times> ref \<times> (error + ref)) \<times> store) option" where
  "derive_at publications searchQuery selectedYear selectedType s =
     (case years_at publications s of None \<Rightarrow> None
      | Some (ys, s1) \<Rightarrow>
          (case types_at publications s1 of None \<Rightarrow> None
           | Some (ts, s2) \<Rightarrow>
               (case filteredPublications_at publications searchQuery selectedYear selectedType s2 of
                  None \<Rightarrow> None
                | Some (fs, s3) \<Rightarrow> Some ((ys, ts, fs), s3))))"

section \<open>The criteria in the words of the specification\<close>

text \<open>
  The query is a case-insensitive substring of a string: the lower-cased query occurs as a
  contiguous block of the lower-cased string.
\<close>

definition ci_substring :: "string \<Rightarrow> string \<Rightarrow> bool" where
  "ci_substring q s = sublist (toLowerCase q) (toLowerCase s)"

text \<open>
  The text-search criterion as the specification words it: the query is a case-insensitive
  substring of the title, of some author's name, of the journal, or of the conference.
\<close>

definition text_criterion :: "string \<Rightarrow> publication \<Rightarrow> bool" where
  "text_criterion q pub =
     ((case title pub of None \<Rightarrow> False | Some t \<Rightarrow> ci_substring q t) \<or>
      list_ex (\<lambda>a. ci_substring q (name a)) (authors pub) \<or>
      (case journal pub of None \<Rightarrow> False | Some j \<Rightarrow> ci_substring q j) \<or>
      (case conference pub of None \<Rightarrow> False | Some c \<Rightarrow> ci_substring q c))"

text \<open>
  ASCII strings, on which \<open>toLowerCase\<close> is the built-in of JavaScript, and the records whose
  searched fields (title, names of the authors, journal, conference) are ASCII strings.
\<close>

definition is_ascii :: "string \<Rightarrow> bool" where
  "is_ascii s = list_all (\<lambda>c. (of_char c :: nat) < 128) s"

definition ascii_text :: "publication \<Rightarrow> bool" where
  "ascii_text pub =
     ((case title pub of None \<Rightarrow> True | Some t \<Rightarrow> is_ascii t) \<and>
      list_all (\<lambda>a. is_ascii (name a)) (authors pub) \<and>
      (case journal pub of None \<Rightarrow> True | Some j \<Rightarrow> is_ascii j) \<and>
      (case conference pub of None \<Rightarrow> True | Some c \<Rightarrow> is_ascii c))"

section \<open>Sample data\<close>

definition smith_paper :: publication where
  "smith_paper =
     \<lparr>pub_id = ''smith2020'', pub_type = ''article'', title = Some ''Auctions'',
      authors = [\<lparr>name = ''John Smith''\<rparr>], year = 2020, journal = Some ''Econometrica'',
      conference = None, description = None, abstract = Some ''We study auctions.'',
      bibtex = Some ''@article{smith2020}'', hidden_bib = False\<rparr>"

definition jones_paper :: publication where
  "jones_paper =
     \<lparr>pub_id = ''jones2020'', pub_type = ''inproceedings'', title = Some ''Learning'',
      authors = [\<lparr>name = ''Ann Jones''\<rparr>, \<lparr>name = ''Bo Li''\<rparr>], year = 2020, journal = None,
      conference = Some ''NeurIPS'', description = None, abstract = None,
      bibtex = Some ''@inproceedings{jones2020}'', hidden_bib = True\<rparr>"

definition li_paper :: publication where
  "li_paper =
     \<lparr>pub_id = ''li2021'', pub_type = ''article'', title = Some ''Networks'',
      authors = [\<lparr>name = ''Bo Li''\<rparr>], year = 2021, journal = None,
      conference = None, description = None, abstract = None,
      bibtex = None, hidden_bib = False\<rparr>"

definition untitled_paper :: publication where
  "untitled_paper = smith_paper\<lparr>title := None\<rparr>"

definition sample_store :: store where
  "sample_store = \<lparr>cells = [0 \<mapsto> Pubs [smith_paper, li_paper, jones_paper]], next_ref = 1\<rparr>"

section \<open>The BibTeX parser\<close>

text \<open>
  Modelled from the spec: the function \<^verbatim>\<open>parseBibTeX\<close> of \<^verbatim>\<open>@/lib/bibtexParser\<close>, which the
  page calls on the text of the BibTeX file and which is not among the sources. The
  definitions of this section follow the contract and the algorithm sketch of section 4.1
  of the specification: scan for entry start markers, find the matching closing brace by
  brace depth, split the span on top-level commas, split each assignment on its first
  equals sign, trim, and strip one layer of braces or quotes.
\<close>

text \<open>Modelled from the spec: white space, letters and digits.\<close>

definition is_space :: "char \<Rightarrow> bool" where
  "is_space c = (c \<in> set [CHR '' '', CHR 0x09, CHR 0x0A, CHR 0x0D])"

definition is_letter :: "char \<Rightarrow> bool" where
  "is_letter c = (c \<in> set (upper_letters @ lower_letters))"

definition is_digit :: "char \<Rightarrow> bool" where
  "is_digit c = (c \<in> set ''0123456789'')"

text \<open>Modelled from the spec: trimming of surrounding white space.\<close>

definition trim :: "string \<Rightarrow> string" where
  "trim s = rev (dropWhile is_space (rev (dropWhile is_space s)))"

text \<open>
  Modelled from the spec: an entry start marker is \<^verbatim>\<open>@\<close> followed by a type token and an
  opening brace. \<open>start_marker\<close> reads the text after the \<^verbatim>\<open>@\<close> and yields the type token (a
  non-empty run of letters) and the text after the opening brace.
\<close>

definition start_marker :: "string \<Rightarrow> (string \<times> string) option" where
  "start_marker s =
     (case dropWhile is_letter s of
        [] \<Rightarrow> None
      | c # rest \<Rightarrow>
          if c = CHR ''{'' \<and> takeWhile is_letter s \<noteq> []
          then Some (takeWhile is_letter s, rest) else None)"

text \<open>
  Modelled from the spec: the matching closing brace, found by tracking the depth of nested
  braces. \<open>match_close d s\<close> reads \<open>s\<close> with \<open>d\<close> nested braces open and yields the text
  before the closing brace of the entry and the text after it, or \<open>None\<close> when the braces
  stay unbalanced to the end of the input.
\<close>

fun match_close :: "nat \<Rightarrow> string \<Rightarrow> (string \<times> string) option" where
  "match_close d [] = None"
| "match_close d (c # cs) =
     (if c = CHR ''{'' then map_option (\<lambda>(body, rest). (c # body, rest)) (match_close (Suc d) cs)
      else if c = CHR ''}'' then
        (case d of
           0 \<Rightarrow> Some ([], cs)
         | Suc d' \<Rightarrow> map_option (\<lambda>(body, rest). (c # body, rest)) (match_close d' cs))
      else map_option (\<lambda>(body, rest). (c # body, rest)) (match_close d cs))"

text \<open>
  Modelled from the spec: the split of the span on top-level commas, respecting nested
  braces and quotes. \<open>d\<close> is the brace depth, \<open>q\<close> says whether a quoted value is open, and
  \<open>acc\<close> holds the current piece in reverse.
\<close>

fun split_commas :: "nat \<Rightarrow> bool \<Rightarrow> string \<Rightarrow> string \<Rightarrow> string list" where
  "split_commas d q acc [] = [rev acc]"
| "split_commas d q acc (c # cs) =
     (if c = CHR '','' \<and> d = 0 \<and> \<not> q then rev acc # split_commas 0 False [] cs
      else if c = CHR 0x22 \<and> d = 0 then split_commas d (\<not> q) (c # acc) cs
      else if c = CHR ''{'' then split_commas (Suc d) q (c # acc) cs
      else if c = CHR ''}'' then split_commas (d - 1) q (c # acc) cs
      else split_commas d q (c # acc) cs)"

text \<open>
  Modelled from the spec: an assignment is split on its first equals sign into a field name
  and a value, both trimmed; the name is matched case-insensitively, so it is kept in lower
  case; one layer of surrounding braces or quotes is stripped from the value. A piece with
  no equals sign (the rest after a trailing comma, for one) is no assignment.
\<close>

definition strip_layer :: "string \<Rightarrow> string" where
  "strip_layer v =
     (case v of
        [] \<Rightarrow> v
      | c # cs \<Rightarrow>
          if cs \<noteq> [] \<and> ((c = CHR ''{'' \<and> last cs = CHR ''}'') \<or> (c = CHR 0x22 \<and> last cs = CHR 0x22))
          then butlast cs else v)"

definition parse_assignment :: "string \<Rightarrow> (string \<times> string) option" where
  "parse_assignment s =
     (case dropWhile (\<lambda>c. c \<noteq> CHR ''='') s of
        [] \<Rightarrow> None
      | eq # v \<Rightarrow>
          Some (toLowerCase (trim (takeWhile (\<lambda>c. c \<noteq> CHR ''='') s)), strip_layer (trim v)))"

text \<open>
  Modelled from the spec: the author field is split on the word \<^verbatim>\<open>and\<close> standing between
  white space, each name is trimmed, and an empty field yields no author.
\<close>

fun split_and :: "string \<Rightarrow> string \<Rightarrow> string list" where
  "split_and acc [] = [rev acc]"
| "split_and acc (c # cs) =
     (if is_space c \<and> prefix ''and'' cs \<and> (case drop 3 cs of [] \<Rightarrow> False | w # ws \<Rightarrow> is_space w)
      then rev acc # split_and [] (drop 3 cs)
      else split_and (c # acc) cs)"

definition parse_authors :: "string \<Rightarrow> author list" where
  "parse_authors v = map (\<lambda>n. \<lparr>name = n\<rparr>) (filter (\<lambda>n. n \<noteq> []) (map trim (split_and [] v)))"

text \<open>
  Modelled from the spec: the year is read as a decimal integer; content that is not a
  number is treated as absent.
\<close>

definition digit_value :: "char \<Rightarrow> int" where
  "digit_value c = int (of_char c) - 48"

definition parse_year :: "string \<Rightarrow> int option" where
  "parse_year v =
     (if v \<noteq> [] \<and> list_all is_digit v
      then Some (foldl (\<lambda>n c. 10 * n + digit_value c) 0 v) else None)"

text \<open>
  Modelled from the spec: the record of an entry with type token \<open>ty\<close> and span \<open>body\<close> (the
  text between the braces of the entry). The first piece of the span is the citation key.
  The type of the record is the type token in lower case. The fields are read under the
  names the record gives them. A year that is absent or not a number becomes the value
  \<open>absent\<close>, which the specification leaves open (a sentinel). The marker field
  \<^verbatim>\<open>hidden_bib\<close> is truthy when its value is \<^verbatim>\<open>true\<close> in any case. The field \<open>bibtex\<close> is the
  text of the entry from \<^verbatim>\<open>@\<close> to its closing brace.
\<close>

definition entry_record :: "int \<Rightarrow> string \<Rightarrow> string \<Rightarrow> publication" where
  "entry_record absent ty body =
     (let pieces = split_commas 0 False [] body;
          fields = map_of (List.map_filter parse_assignment (tl pieces))
      in \<lparr>pub_id = (case pieces of [] \<Rightarrow> [] | k # assignments \<Rightarrow> trim k),
          pub_type = toLowerCase ty,
          title = fields ''title'',
          authors = (case fields ''author'' of None \<Rightarrow> [] | Some v \<Rightarrow> parse_authors v),
          year = (case fields ''year'' of
                    None \<Rightarrow> absent
                  | Some v \<Rightarrow> (case parse_year v of None \<Rightarrow> absent | Some n \<Rightarrow> n)),
          journal = fields ''journal'',
          conference = fields ''conference'',
          description = fields ''description'',
          abstract = fields ''abstract'',
          bibtex = Some (CHR ''@'' # ty @ CHR ''{'' # body @ ''}''),
          hidden_bib = (case fields ''hidden_bib'' of
                          None \<Rightarrow> False
                        | Some v \<Rightarrow> toLowerCase v = ''true'')\<rparr>)"

text \<open>
  Modelled from the spec: the scan. At an entry start marker whose braces balance, the
  entry becomes a record and the scan goes on after its closing brace. A marker whose
  braces stay unbalanced to the end of the input is dropped, and so is an \<^verbatim>\<open>@\<close> that starts
  no marker; the scan goes on with the next character, so that entries after a bad one are
  still found. Text outside entries is skipped. The parser has no error result.
\<close>

function parseBibTeX :: "int \<Rightarrow> string \<Rightarrow> publication list" where
  "parseBibTeX absent [] = []"
| "parseBibTeX absent (c # cs) =
     (if c = CHR ''@'' then
        (case start_marker cs of
           None \<Rightarrow> parseBibTeX absent cs
         | Some (ty, rest) \<Rightarrow>
             (case match_close 0 rest of
                None \<Rightarrow> parseBibTeX absent cs
              | Some (body, rest') \<Rightarrow> entry_record absent ty body # parseBibTeX absent rest'))
      else parseBibTeX absent cs)"
  by pat_completeness auto
section \<open>Well-formed and unclosed entries\<close>

text \<open>
  The text of an entry with type token \<open>ty\<close> and span \<open>body\<close>, and the same text without its
  closing brace.
\<close>

definition entry_text :: "string \<Rightarrow> string \<Rightarrow> string" where
  "entry_text ty body = CHR ''@'' # ty @ CHR ''{'' # body @ ''}''"

definition unclosed_text :: "string \<Rightarrow> string \<Rightarrow> string" where
  "unclosed_text ty body = CHR ''@'' # ty @ CHR ''{'' # body"

definition type_token :: "string \<Rightarrow> bool" where
  "type_token ty = (ty \<noteq> [] \<and> list_all is_letter ty)"

text \<open>
  \<open>depth_after d s\<close> is the brace depth after the text \<open>s\<close> read at depth \<open>d\<close>, or \<open>None\<close>
  when \<open>s\<close> holds a closing brace with no partner at depth \<open>0\<close>. A span is balanced when
  \<open>depth_after 0\<close> of it is \<open>Some 0\<close>.
\<close>

fun depth_after :: "nat \<Rightarrow> string \<Rightarrow> nat option" where
  "depth_after d [] = Some d"
| "depth_after d (c # cs) =
     (if c = CHR ''{'' then depth_after (Suc d) cs
      else if c = CHR ''}'' then (case d of 0 \<Rightarrow> None | Suc d' \<Rightarrow> depth_after d' cs)
      else depth_after d cs)"

text \<open>A text in which no \<^verbatim>\<open>@\<close> starts an entry.\<close>

fun no_marker :: "string \<Rightarrow> bool" where
  "no_marker [] = True"
| "no_marker (c # cs) =
     (if c = CHR ''@'' then start_marker cs = None \<and> no_marker cs else no_marker cs)"

text \<open>
  A text that holds no complete entry: wherever an \<^verbatim>\<open>@\<close> of the text starts an entry, the
  braces of that entry do not close inside the text.
\<close>

fun no_inner_entry :: "string \<Rightarrow> bool" where
  "no_inner_entry [] = True"
| "no_inner_entry (c # cs) =
     ((if c = CHR ''@'' then
         (case start_marker cs of
            None \<Rightarrow> True
          | Some (ty, rest) \<Rightarrow> match_close 0 rest = None)
       else True) \<and>
      no_inner_entry cs)"

text \<open>
  A text that cannot continue a type token or open an entry: it is empty, or it starts
  with a character that is neither a letter nor an opening brace.
\<close>

definition boundary :: "string \<Rightarrow> bool" where
  "boundary rest = (case rest of [] \<Rightarrow> True | c # cs \<Rightarrow> \<not> is_letter c \<and> c \<noteq> CHR ''{'')"

section \<open>Sample BibTeX\<close>

definition k1_record :: publication where
  "k1_record =
     \<lparr>pub_id = ''k1'', pub_type = ''article'', title = Some ''T'',
      authors = [\<lparr>name = ''A''\<rparr>, \<lparr>name = ''B''\<rparr>], year = 2020, journal = None,
      conference = None, description = None, abstract = None,
      bibtex = Some ''@article{k1, author={A and B}, year={2020}, title={T}}'',
      hidden_bib = False\<rparr>"

definition good_entry :: string where
  "good_entry = ''@article{k1, author={A and B}, year={2020}, title={T}}''"

definition bad_entry :: string where
  "bad_entry = ''@book{k2, note={mail c@d.org, see @misc{k3, title={X''"

definition nested_entry :: string where
  "nested_entry = ''@book{k2, note={see @misc{foo}}, title={X''"

section \<open>Termination of the scan\<close>

text \<open>
  The scan resumes either at the next character or after the closing brace of an entry, and
  both are shorter than the text it was given.
\<close>

lemma start_marker_length: "start_marker s = Some (ty, rest) \<Longrightarrow> length rest < length s"
proof -
  assume a: "start_marker s = Some (ty, rest)"
  have "length (dropWhile is_letter s) \<le> length s" by (rule length_dropWhile_le)
  with a show ?thesis by (auto simp: start_marker_def split: list.splits if_splits)
qed

lemma match_close_length: "match_close d s = Some (body, rest) \<Longrightarrow> length rest < length s"
  by (induction d s arbitrary: body rest rule: match_close.induct)
     (fastforce split: if_splits nat.splits)+

termination parseBibTeX
proof (relation "measure (\<lambda>(absent, s). length s)")
  fix absent :: int and c :: char and cs x2 x y x2a xa ya
  assume "start_marker cs = Some x2" "(x, y) = x2" "match_close 0 y = Some x2a" "(xa, ya) = x2a"
  then have "length y < length cs" "length ya < length y"
    using start_marker_length match_close_length by metis+
  then show "((absent, ya), absent, c # cs) \<in> measure (\<lambda>(absent, s). length s)" by simp
qed auto

section \<open>Facts about the built-ins\<close>

lemma includesStr_sublist: "includesStr s q = sublist q s"
  by (induction s) (simp_all add: sublist_Cons_right)

lemma array_filter_Inr:
  "array_filter f xs = Inr ys \<Longrightarrow> ys = filter (\<lambda>x. f x = Inr True) xs"
  by (induction xs arbitrary: ys) (auto split: sum.splits if_splits)

lemma array_filter_total:
  "\<forall>x\<in>set xs. \<exists>b. f x = Inr b \<Longrightarrow>
   array_filter f xs = Inr (filter (\<lambda>x. f x = Inr True) xs)"
  by (induction xs) (auto split: sum.splits)

lemma count_list_filter_le: "count_list (filter P xs) x \<le> count_list xs x"
  by (induction xs) auto

lemma foldl_set_add_set: "set (foldl set_add acc xs) = set acc \<union> set xs"
  by (induction xs arbitrary: acc) (auto simp: set_add_def)

lemma foldl_set_add_distinct: "distinct acc \<Longrightarrow> distinct (foldl set_add acc xs)"
  by (induction xs arbitrary: acc) (auto simp: set_add_def)

lemma set_new_Set: "set (new_Set xs) = set xs"
  by (simp add: new_Set_def foldl_set_add_set)

lemma distinct_new_Set: "distinct (new_Set xs)"
  by (simp add: new_Set_def foldl_set_add_distinct)

lemma set_insert_cmp: "set (insert_cmp cmp x ys) = insert x (set ys)"
  by (induction ys) auto

lemma distinct_insert_cmp:
  "distinct ys \<Longrightarrow> x \<notin> set ys \<Longrightarrow> distinct (insert_cmp cmp x ys)"
  by (induction ys) (auto simp: set_insert_cmp)

lemma set_sort_cmp: "set (sort_cmp cmp xs) = set xs"
  by (induction xs) (simp_all add: sort_cmp_def set_insert_cmp)

lemma distinct_sort_cmp: "distinct xs \<Longrightarrow> distinct (sort_cmp cmp xs)"
  by (induction xs)
     (simp_all add: sort_cmp_def distinct_insert_cmp set_sort_cmp[unfolded sort_cmp_def])

text \<open>The comparator \<^verbatim>\<open>(a, b) => b - a\<close> sorts integers in descending order.\<close>

lemma sorted_insert_desc:
  "sorted_wrt (\<lambda>a b. (b::int) \<le> a) ys \<Longrightarrow>
   sorted_wrt (\<lambda>a b. b \<le> a) (insert_cmp (\<lambda>a b. b - a) x ys)"
  by (induction ys) (auto simp: set_insert_cmp)

lemma sorted_sort_desc: "sorted_wrt (\<lambda>a b. (b::int) \<le> a) (sort_cmp (\<lambda>a b. b - a) xs)"
  by (induction xs) (simp_all add: sort_cmp_def sorted_insert_desc)

text \<open>The default comparison sorts strings in ascending order.\<close>

lemma sorted_insert_default: "sorted ys \<Longrightarrow> sorted (insert_cmp default_compare x ys)"
  by (induction ys) (auto simp: set_insert_cmp default_compare_def split: if_splits)

lemma sorted_sort_default: "sorted (sort_cmp default_compare xs)"
  by (induction xs) (simp_all add: sort_cmp_def sorted_insert_default)

lemma strict_desc_of_distinct:
  "distinct xs \<Longrightarrow> sorted_wrt (\<lambda>a b. (b::int) \<le> a) xs \<Longrightarrow> sorted_wrt (\<lambda>a b. b < a) xs"
  by (induction xs) (auto simp: less_le)

section \<open>The filter\<close>

lemma matchesSearch_titled:
  "title pub = Some t \<Longrightarrow> matchesSearch q pub = Inr (text_criterion q pub)"
  by (simp add: matchesSearch_def text_criterion_def ci_substring_def includesStr_sublist
      some_def split: option.splits)

lemma keeps_titled:
  "title pub = Some t \<Longrightarrow>
   keeps q y ty pub = Inr (text_criterion q pub \<and> matchesYear y pub \<and> matchesType ty pub)"
  by (simp add: keeps_def matchesSearch_titled)

lemma filtered_titled:
  assumes "\<forall>p\<in>set pubs. title p \<noteq> None"
  shows "filteredPublications pubs q y ty =
         Inr (filter (\<lambda>p. text_criterion q p \<and> matchesYear y p \<and> matchesType ty p) pubs)"
proof -
  have k: "\<forall>p\<in>set pubs.
             keeps q y ty p = Inr (text_criterion q p \<and> matchesYear y p \<and> matchesType ty p)"
    using assms keeps_titled by fastforce
  then have "\<forall>p\<in>set pubs. \<exists>b. keeps q y ty p = Inr b" by blast
  then have "array_filter (keeps q y ty) pubs =
             Inr (filter (\<lambda>p. keeps q y ty p = Inr True) pubs)"
    by (rule array_filter_total)
  moreover have "filter (\<lambda>p. keeps q y ty p = Inr True) pubs =
                 filter (\<lambda>p. text_criterion q p \<and> matchesYear y p \<and> matchesType ty p) pubs"
    using k by (intro filter_cong) auto
  ultimately show ?thesis by (simp add: filteredPublications_def)
qed

lemma sample_titled: "\<forall>p\<in>set [smith_paper, li_paper, jones_paper]. title p \<noteq> None"
  by (simp add: smith_paper_def li_paper_def jones_paper_def)

text \<open>
  C1, amended. For every publication record that has a title and every search query, the
  query and the searched fields of the record being ASCII text, the text-search test of the
  filter returns a boolean, and it is true if and only if the query is a case-insensitive
  substring of the title, of some author's name, of the journal, or of the conference.
\<close>

theorem matchesSearch_text_criterion:
  assumes "title pub \<noteq> None" and "is_ascii searchQuery" and "ascii_text pub"
  shows "matchesSearch searchQuery pub = Inr (text_criterion searchQuery pub)"
  using assms(1) matchesSearch_titled by fastforce

text \<open>
  The search for \<^verbatim>\<open>smith\<close> matches a record whose author is named \<^verbatim>\<open>John Smith\<close> and whose
  title, journal and conference do not hold the query.
\<close>

theorem matchesSearch_text_criterion_witness:
  "matchesSearch ''smith'' smith_paper = Inr True \<and>
   authors smith_paper = [\<lparr>name = ''John Smith''\<rparr>] \<and>
   title smith_paper = Some ''Auctions''"
proof -
  have t: "title smith_paper \<noteq> None" by (simp add: smith_paper_def)
  have q: "is_ascii ''smith''" by code_simp
  have a: "ascii_text smith_paper" by code_simp
  have c: "text_criterion ''smith'' smith_paper = True" by code_simp
  from matchesSearch_text_criterion[OF t q a] c show ?thesis
    by (simp add: smith_paper_def)
qed

text \<open>
  C1 as stated fails on a record of the data model that has no title: the query is a
  substring of an author's name, and the test throws instead of matching.
\<close>

theorem matchesSearch_untitled_counterexample:
  "text_criterion ''smith'' untitled_paper \<and>
   matchesSearch ''smith'' untitled_paper = Inl TypeError"
  by code_simp

text \<open>
  C2, amended. For every publication list whose records all have a title and every
  combination of search query, year selection and type selection, the query and the
  searched fields of the records being ASCII text, the filter returns a list, and a record
  is in it if and only if it is in the input and satisfies the text-search criterion, the
  year criterion (the selection is "all" or the year of the record) and the type criterion
  (the selection is "all" or the type of the record); if a year is selected and the query
  matches none of the records of that year, the result is empty.
\<close>

theorem filteredPublications_iff:
  assumes "\<forall>p\<in>set publications. title p \<noteq> None"
      and "is_ascii searchQuery" and "\<forall>p\<in>set publications. ascii_text p"
  shows "\<exists>out. filteredPublications publications searchQuery selectedYear selectedType = Inr out \<and>
           (\<forall>p. p \<in> set out \<longleftrightarrow>
                 p \<in> set publications \<and> text_criterion searchQuery p \<and>
                 (selectedYear = AllYears \<or> selectedYear = Year (year p)) \<and>
                 (selectedType = ''all'' \<or> selectedType = pub_type p)) \<and>
           ((\<exists>n. selectedYear = Year n \<and>
                 (\<forall>p\<in>set publications. year p = n \<longrightarrow> \<not> text_criterion searchQuery p))
              \<longrightarrow> out = [])"
proof -
  let ?out = "filter (\<lambda>p. text_criterion searchQuery p \<and> matchesYear selectedYear p \<and>
                          matchesType selectedType p) publications"
  have 1: "filteredPublications publications searchQuery selectedYear selectedType = Inr ?out"
    by (rule filtered_titled[OF assms(1)])
  have 2: "\<forall>p. p \<in> set ?out \<longleftrightarrow>
                 p \<in> set publications \<and> text_criterion searchQuery p \<and>
                 (selectedYear = AllYears \<or> selectedYear = Year (year p)) \<and>
                 (selectedType = ''all'' \<or> selectedType = pub_type p)"
    by (cases selectedYear) (auto simp: matchesYear_def matchesType_def)
  have 3: "(\<exists>n. selectedYear = Year n \<and>
                 (\<forall>p\<in>set publications. year p = n \<longrightarrow> \<not> text_criterion searchQuery p))
              \<longrightarrow> ?out = []"
    by (auto simp: matchesYear_def filter_empty_conv)
  from 1 2 3 show ?thesis by blast
qed

text \<open>
  Three records across two years: the year 2020 selects the two records of 2020, and the
  year 2020 with a query that only the record of 2021 matches selects nothing.
\<close>

theorem filteredPublications_iff_witness:
  "filteredPublications [smith_paper, li_paper, jones_paper] ''networks'' (Year 2020) ''all'' = Inr [] \<and>
   filteredPublications [smith_paper, li_paper, jones_paper] [] (Year 2020) ''all''
     = Inr [smith_paper, jones_paper] \<and>
   filteredPublications [smith_paper, li_paper, jones_paper] ''networks'' AllYears ''all''
     = Inr [li_paper]"
proof -
  have n: "\<forall>p\<in>set [smith_paper, li_paper, jones_paper].
             year p = 2020 \<longrightarrow> \<not> text_criterion ''networks'' p"
    by code_simp
  have q: "is_ascii ''networks''" by code_simp
  have a: "\<forall>p\<in>set [smith_paper, li_paper, jones_paper]. ascii_text p" by code_simp
  from filteredPublications_iff[OF sample_titled q a, of "Year 2020" "''all''"] n
  have "filteredPublications [smith_paper, li_paper, jones_paper] ''networks'' (Year 2020) ''all''
          = Inr []"
    by auto
  moreover
  have "filteredPublications [smith_paper, li_paper, jones_paper] [] (Year 2020) ''all''
          = Inr [smith_paper, jones_paper]"
    by code_simp
  moreover
  have "filteredPublications [smith_paper, li_paper, jones_paper] ''networks'' AllYears ''all''
          = Inr [li_paper]"
    by code_simp
  ultimately show ?thesis by blast
qed

text \<open>
  C2 as stated fails on a list that holds a record without a title: the filter throws, so
  a record of the list that satisfies all three criteria appears in no output.
\<close>

theorem filteredPublications_untitled_counterexample:
  "smith_paper \<in> set [smith_paper, untitled_paper] \<and>
   text_criterion [] smith_paper \<and>
   filteredPublications [smith_paper, untitled_paper] [] AllYears ''all'' = Inl TypeError"
  by code_simp

text \<open>
  C4, amended. Filtering is total on the records that have a title: for every publication
  list whose records all have a title (they may lack the journal, the conference and the
  other optional strings) and every query, year and type selection, the filter completes
  without throwing.
\<close>

theorem filteredPublications_total:
  assumes "\<forall>p\<in>set publications. title p \<noteq> None"
  shows "\<exists>out. filteredPublications publications searchQuery selectedYear selectedType = Inr out"
  using filtered_titled[OF assms] by blast

text \<open>A record with a title and no journal, conference, description, abstract or BibTeX.\<close>

theorem filteredPublications_total_witness:
  "journal li_paper = None \<and> conference li_paper = None \<and>
   (\<exists>out. filteredPublications [li_paper] ''neurips'' AllYears ''article'' = Inr out)"
proof -
  have t: "\<forall>p\<in>set [li_paper]. title p \<noteq> None" by (simp add: li_paper_def)
  from filteredPublications_total[OF t] show ?thesis by (simp add: li_paper_def)
qed

text \<open>
  C4 as stated fails on a record of the data model that lacks the title: the filter throws
  a TypeError, whatever the query and the selections.
\<close>

theorem filteredPublications_throws_counterexample:
  "title untitled_paper = None \<and>
   filteredPublications [untitled_paper] [] AllYears ''all'' = Inl TypeError"
  by code_simp

text \<open>
  C6. For every publication list and every combination of criteria, the output of the
  filter is a subsequence of the input: its records keep the order they have in the input,
  every one of them occurs in the input, and none occurs more often than in the input.
\<close>

theorem filteredPublications_subseq:
  "filteredPublications publications searchQuery selectedYear selectedType = Inr out \<Longrightarrow>
   subseq out publications \<and> set out \<subseteq> set publications \<and>
   (\<forall>p. count_list out p \<le> count_list publications p)"
  unfolding filteredPublications_def
  by (auto dest!: array_filter_Inr simp: count_list_filter_le)

theorem filteredPublications_subseq_witness:
  "filteredPublications [smith_paper, li_paper, jones_paper] ''li'' AllYears ''all''
     = Inr [li_paper, jones_paper] \<and>
   subseq [li_paper, jones_paper] [smith_paper, li_paper, jones_paper]"
proof -
  have f: "filteredPublications [smith_paper, li_paper, jones_paper] ''li'' AllYears ''all''
             = Inr [li_paper, jones_paper]"
    by code_simp
  from filteredPublications_subseq[OF f] f show ?thesis by blast
qed

text \<open>
  C10. For every publication list in which every record has a title, the filter with the
  empty query, the year selection "all" and the type selection "all" returns the input
  list.
\<close>

theorem filteredPublications_neutral:
  assumes "\<forall>p\<in>set publications. title p \<noteq> None"
  shows "filteredPublications publications [] AllYears ''all'' = Inr publications"
proof -
  have "\<forall>p\<in>set publications. text_criterion [] p"
    using assms by (auto simp: text_criterion_def ci_substring_def toLowerCase_def)
  then show ?thesis
    by (simp add: filtered_titled[OF assms] matchesYear_def matchesType_def)
qed

theorem filteredPublications_neutral_witness:
  "filteredPublications [smith_paper, li_paper, jones_paper] [] AllYears ''all''
     = Inr [smith_paper, li_paper, jones_paper]"
  using filteredPublications_neutral[OF sample_titled] .

section \<open>The filter options\<close>

text \<open>
  C3. For every publication list, the year options are the year values that occur in the
  list, each once, in descending order, and the type options are the type values that
  occur in the list, each once, in ascending order.
\<close>

theorem years_types_options:
  "set (years publications) = year ` set publications \<and>
   distinct (years publications) \<and>
   sorted_wrt (\<lambda>a b. a > b) (years publications) \<and>
   set (types publications) = pub_type ` set publications \<and>
   distinct (types publications) \<and>
   sorted_wrt (\<lambda>a b. a < b) (types publications)"
proof -
  have y1: "set (years publications) = year ` set publications"
    by (simp add: years_def Array_from_def set_sort_cmp set_new_Set)
  have y2: "distinct (years publications)"
    by (simp add: years_def Array_from_def distinct_sort_cmp distinct_new_Set)
  have y3: "sorted_wrt (\<lambda>a b. a > b) (years publications)"
    using strict_desc_of_distinct[OF y2] by (simp add: years_def sorted_sort_desc)
  have t1: "set (types publications) = pub_type ` set publications"
    by (simp add: types_def Array_from_def set_sort_cmp set_new_Set)
  have t2: "distinct (types publications)"
    by (simp add: types_def Array_from_def distinct_sort_cmp distinct_new_Set)
  have "sorted (types publications)"
    by (simp add: types_def sorted_sort_default)
  with t2 have t3: "sorted_wrt (\<lambda>a b. a < b) (types publications)"
    by (simp add: strict_sorted_iff)
  from y1 y2 y3 t1 t2 t3 show ?thesis by blast
qed

text \<open>The options of the three sample records.\<close>

lemma years_types_sample:
  "years [smith_paper, li_paper, jones_paper] = [2021, 2020] \<and>
   types [smith_paper, li_paper, jones_paper] = [''article'', ''inproceedings'']"
  by code_simp

section \<open>The BibTeX controls of an entry\<close>

text \<open>
  C5. For every record with \<^verbatim>\<open>hidden_bib\<close> true and every expansion state, the rendered
  entry holds no BibTeX toggle button and no BibTeX panel (nor its copy button); and an
  entry that holds one of these controls belongs to a record that has a BibTeX value and
  whose \<^verbatim>\<open>hidden_bib\<close> is false.
\<close>

theorem hidden_bib_no_controls:
  "(hidden_bib pub \<longrightarrow>
      BibtexButton \<notin> set (renderEntry st pub) \<and>
      BibtexPanel b \<notin> set (renderEntry st pub) \<and>
      CopyButton \<notin> set (renderEntry st pub)) \<and>
   (BibtexButton \<in> set (renderEntry st pub) \<or>
    BibtexPanel b \<in> set (renderEntry st pub) \<or>
    CopyButton \<in> set (renderEntry st pub) \<longrightarrow>
      bibtex pub \<noteq> None \<and> \<not> hidden_bib pub)"
  by (cases "bibtex pub") (auto simp: renderEntry_def shown_def split: if_splits)

text \<open>
  A record with \<^verbatim>\<open>hidden_bib\<close> true whose id is the expanded one shows no control; a record
  with a BibTeX value and \<^verbatim>\<open>hidden_bib\<close> false shows the button and, expanded, the panel.
\<close>

theorem hidden_bib_no_controls_witness:
  "hidden_bib jones_paper \<and>
   BibtexButton \<notin> set (renderEntry \<lparr>expandedBibtexId = Some ''jones2020'', expandedAbstractId = None\<rparr> jones_paper) \<and>
   BibtexPanel ''@inproceedings{jones2020}'' \<notin> set (renderEntry \<lparr>expandedBibtexId = Some ''jones2020'', expandedAbstractId = None\<rparr> jones_paper) \<and>
   BibtexPanel ''@article{smith2020}'' \<in> set (renderEntry \<lparr>expandedBibtexId = Some ''smith2020'', expandedAbstractId = None\<rparr> smith_paper) \<and>
   bibtex smith_paper \<noteq> None \<and> \<not> hidden_bib smith_paper"
proof -
  have h: "hidden_bib jones_paper" by (simp add: jones_paper_def)
  have p: "BibtexPanel ''@article{smith2020}'' \<in> set (renderEntry \<lparr>expandedBibtexId = Some ''smith2020'', expandedAbstractId = None\<rparr> smith_paper)"
    by (simp add: renderEntry_def shown_def smith_paper_def)
  from hidden_bib_no_controls[of jones_paper "\<lparr>expandedBibtexId = Some ''jones2020'', expandedAbstractId = None\<rparr>" "''@inproceedings{jones2020}''"]
       hidden_bib_no_controls[of smith_paper "\<lparr>expandedBibtexId = Some ''smith2020'', expandedAbstractId = None\<rparr>" "''@article{smith2020}''"]
       h p
  show ?thesis by blast
qed

section \<open>The input array is left as it was\<close>

lemma years_at_eq:
  "cells s r = Some (Pubs pubs) \<Longrightarrow> r < next_ref s \<Longrightarrow>
   years_at r s = Some (Suc (next_ref s),
       s\<lparr>cells := (cells s)(next_ref s \<mapsto> Nums (map year pubs),
                            Suc (next_ref s) \<mapsto> Nums (years pubs)),
          next_ref := Suc (Suc (next_ref s))\<rparr>)"
  by (simp add: years_at_def map_year_at_def unique_nums_at_def sort_nums_at_def get_pubs_def
      get_nums_def alloc_def years_def)

lemma types_at_eq:
  "cells s r = Some (Pubs pubs) \<Longrightarrow> r < next_ref s \<Longrightarrow>
   types_at r s = Some (Suc (next_ref s),
       s\<lparr>cells := (cells s)(next_ref s \<mapsto> Strs (map pub_type pubs),
                            Suc (next_ref s) \<mapsto> Strs (types pubs)),
          next_ref := Suc (Suc (next_ref s))\<rparr>)"
  by (simp add: types_at_def map_type_at_def unique_strs_at_def sort_strs_at_def get_pubs_def
      get_strs_def alloc_def types_def)

lemma filtered_at_eq:
  "cells s r = Some (Pubs pubs) \<Longrightarrow>
   filteredPublications_at r q y ty s =
     (case filteredPublications pubs q y ty of
        Inl e \<Rightarrow> Some (Inl e, s)
      | Inr out \<Rightarrow>
          Some (Inr (next_ref s),
                s\<lparr>cells := (cells s)(next_ref s \<mapsto> Pubs out), next_ref := Suc (next_ref s)\<rparr>))"
  by (simp add: filteredPublications_at_def filter_at_def get_pubs_def alloc_def
      filteredPublications_def split: sum.splits)

text \<open>
  C7. Let the publication list be the array at a reference of the store. Computing the
  year options, the type options and the filtered output leaves that array as it was, the
  same records in the same order, and leaves every other array that existed before as it
  was; the year options, the type options and the filtered output are new arrays, at
  references other than that of the input.
\<close>

theorem derive_at_frame:
  assumes "cells s publications = Some (Pubs pubs)" and "publications < next_ref s"
  shows "\<exists>ys ts fs s'.
           derive_at publications searchQuery selectedYear selectedType s = Some ((ys, ts, fs), s') \<and>
           cells s' publications = Some (Pubs pubs) \<and>
           (\<forall>r. r < next_ref s \<longrightarrow> cells s' r = cells s r) \<and>
           ys \<noteq> publications \<and> cells s' ys = Some (Nums (years pubs)) \<and>
           ts \<noteq> publications \<and> cells s' ts = Some (Strs (types pubs)) \<and>
           (case fs of
              Inl e \<Rightarrow> filteredPublications pubs searchQuery selectedYear selectedType = Inl e
            | Inr f \<Rightarrow>
                f \<noteq> publications \<and>
                (\<exists>out. filteredPublications pubs searchQuery selectedYear selectedType = Inr out \<and>
                       cells s' f = Some (Pubs out)))"
  using assms
  by (cases "filteredPublications pubs searchQuery selectedYear selectedType")
     (simp_all add: derive_at_def years_at_eq types_at_eq filtered_at_eq)

theorem derive_at_frame_witness:
  "\<exists>ys ts fs s'.
     derive_at 0 ''li'' AllYears ''all'' sample_store = Some ((ys, ts, fs), s') \<and>
     cells s' 0 = Some (Pubs [smith_paper, li_paper, jones_paper]) \<and>
     cells s' ys = Some (Nums [2021, 2020])"
proof -
  have c: "cells sample_store 0 = Some (Pubs [smith_paper, li_paper, jones_paper])"
    by (simp add: sample_store_def)
  have n: "0 < next_ref sample_store" by (simp add: sample_store_def)
  have y: "years [smith_paper, li_paper, jones_paper] = [2021, 2020]" by code_simp
  from derive_at_frame[OF c n, of "''li''" AllYears "''all''"] y show ?thesis by auto
qed

section \<open>The parser on one entry and on an unclosed entry\<close>

lemma not_letter: "\<not> is_letter CHR ''{''" "\<not> is_letter CHR ''@''"
  by (simp_all add: is_letter_def upper_letters_def lower_letters_def)

lemma start_marker_token:
  "type_token ty \<Longrightarrow> start_marker (ty @ CHR ''{'' # rest) = Some (ty, rest)"
  by (simp add: type_token_def start_marker_def list_all_iff not_letter
      dropWhile_append2 takeWhile_append2)

text \<open>A text that starts no marker starts none when a boundary follows it.\<close>

lemma start_marker_None_append:
  assumes "start_marker s = None" "boundary rest"
  shows "start_marker (s @ rest) = None"
proof (cases "\<forall>x\<in>set s. is_letter x")
  case True
  have "dropWhile is_letter rest = rest"
    using assms(2) by (cases rest) (simp_all add: boundary_def)
  with True have "dropWhile is_letter (s @ rest) = rest" by (simp add: dropWhile_append2)
  then have "start_marker (s @ rest) =
      (case rest of [] \<Rightarrow> None
       | c # r \<Rightarrow> if c = CHR ''{'' \<and> takeWhile is_letter (s @ rest) \<noteq> []
                  then Some (takeWhile is_letter (s @ rest), r) else None)"
    by (simp only: start_marker_def)
  also have "\<dots> = None"
    using assms(2) by (cases rest) (simp_all add: boundary_def)
  finally show ?thesis .
next
  case False
  then have "dropWhile is_letter (s @ rest) = dropWhile is_letter s @ rest"
            "takeWhile is_letter (s @ rest) = takeWhile is_letter s"
            "dropWhile is_letter s \<noteq> []"
    by (auto simp: dropWhile_append1 takeWhile_append1 dropWhile_eq_Nil_conv)
  with assms(1) show ?thesis
    by (cases "dropWhile is_letter s") (simp_all add: start_marker_def split: if_splits)
qed

text \<open>The scan passes over a text without markers.\<close>

lemma skip_no_marker:
  "no_marker u \<Longrightarrow> boundary rest \<Longrightarrow> parseBibTeX a (u @ rest) = parseBibTeX a rest"
proof (induction u)
  case Nil
  show ?case by simp
next
  case (Cons c cs)
  show ?case
  proof (cases "c = CHR ''@''")
    case True
    with Cons.prems have "start_marker cs = None" "no_marker cs" by simp_all
    then have "start_marker (cs @ rest) = None"
      using Cons.prems(2) by (simp add: start_marker_None_append)
    with True Cons.IH[OF \<open>no_marker cs\<close> Cons.prems(2)] show ?thesis by simp
  next
    case False
    with Cons show ?thesis by simp
  qed
qed

lemma depth_after_append:
  "depth_after d (u @ v) = (case depth_after d u of None \<Rightarrow> None | Some e \<Rightarrow> depth_after e v)"
  by (induction d u rule: depth_after.induct) (simp_all split: nat.splits)

lemma depth_after_shift:
  "depth_after d u = Some e \<Longrightarrow> depth_after (d + k) u = Some (e + k)"
  by (induction d u rule: depth_after.induct) (auto split: nat.splits if_splits)

text \<open>The search for the closing brace passes over a text that does not close the entry.\<close>

lemma match_close_append:
  "depth_after d u = Some e \<Longrightarrow>
   match_close d (u @ v) = map_option (\<lambda>(body, rest). (u @ body, rest)) (match_close e v)"
proof (induction d u rule: depth_after.induct)
  case (1 d)
  then show ?case by (simp add: option.map_ident case_prod_unfold split_beta)
next
  case (2 d c cs)
  then show ?case
    by (auto split: nat.splits if_splits simp: option.map_comp comp_def case_prod_unfold)
qed

lemma match_close_None: "depth_after d u = Some e \<Longrightarrow> match_close d u = None"
  using match_close_append[of d u e "[]"] by simp

lemma match_close_balanced:
  "depth_after 0 body = Some 0 \<Longrightarrow> match_close 0 (body @ CHR ''}'' # rest) = Some (body, rest)"
  using match_close_append[of 0 body 0 "CHR ''}'' # rest"] by simp

lemma token_no_at: "type_token ty \<Longrightarrow> CHR ''@'' \<notin> set ty"
  by (auto simp: type_token_def list_all_iff not_letter)

lemma token_depth: "list_all is_letter ty \<Longrightarrow> depth_after d ty = Some d"
  by (induction ty) (auto simp: is_letter_def upper_letters_def lower_letters_def)

text \<open>A well-formed entry becomes one record, and the scan goes on after it.\<close>

lemma parse_entry:
  assumes "type_token ty" "depth_after 0 body = Some 0"
  shows "parseBibTeX a (entry_text ty body @ rest) = entry_record a ty body # parseBibTeX a rest"
  using assms by (simp add: entry_text_def start_marker_token match_close_balanced)

lemma depth_entry:
  assumes "type_token ty" "depth_after 0 body = Some 0"
  shows "depth_after d (entry_text ty body) = Some d"
proof -
  have "depth_after (Suc d) body = Some (Suc d)"
    using depth_after_shift[OF assms(2), of "Suc d"] by simp
  then show ?thesis using assms(1)
    by (simp add: entry_text_def depth_after_append token_depth type_token_def)
qed

text \<open>A marker that is found in a text is found when more text follows.\<close>

lemma start_marker_Some_append:
  assumes "start_marker s = Some (ty, r)"
  shows "start_marker (s @ rest) = Some (ty, r @ rest)"
proof -
  from assms obtain c where d: "dropWhile is_letter s = c # r" "c = CHR ''{''"
      "takeWhile is_letter s = ty" "ty \<noteq> []"
    by (auto simp: start_marker_def split: list.splits if_splits)
  then have "\<not> (\<forall>x\<in>set s. is_letter x)"
    by (metis dropWhile_eq_Nil_conv list.distinct(1))
  then have "dropWhile is_letter (s @ rest) = dropWhile is_letter s @ rest"
            "takeWhile is_letter (s @ rest) = takeWhile is_letter s"
    by (auto simp: dropWhile_append1 takeWhile_append1)
  with d show ?thesis by (simp add: start_marker_def)
qed

text \<open>
  Braces that do not close inside a text do not close either when a text follows that
  closes no brace.
\<close>

lemma match_close_None_depth: "match_close d s = None \<Longrightarrow> \<exists>k. depth_after d s = Some k"
  by (induction d s rule: match_close.induct) (auto split: if_splits nat.splits)

lemma match_close_unclosed_append:
  assumes "match_close 0 r = None" "depth_after 0 rest = Some e"
  shows "match_close 0 (r @ rest) = None"
proof -
  from assms(1) obtain k where k: "depth_after 0 r = Some k"
    using match_close_None_depth by blast
  have "depth_after k rest = Some (e + k)"
    using depth_after_shift[OF assms(2), of k] by simp
  then have "match_close k rest = None" by (rule match_close_None)
  with match_close_append[OF k, of rest] show ?thesis by simp
qed

text \<open>
  The scan passes over a text that holds no complete entry, when the text that follows
  closes no brace.
\<close>

lemma skip_no_inner_entry:
  "no_inner_entry u \<Longrightarrow> boundary rest \<Longrightarrow> depth_after 0 rest = Some e \<Longrightarrow>
   parseBibTeX a (u @ rest) = parseBibTeX a rest"
proof (induction u)
  case Nil
  show ?case by simp
next
  case (Cons c cs)
  from Cons.prems(1) have n: "no_inner_entry cs" by simp
  have ih: "parseBibTeX a (cs @ rest) = parseBibTeX a rest"
    using Cons.IH[OF n Cons.prems(2,3)] .
  show ?case
  proof (cases "c = CHR ''@''")
    case False
    with ih show ?thesis by simp
  next
    case True
    show ?thesis
    proof (cases "start_marker cs")
      case None
      then have "start_marker (cs @ rest) = None"
        using Cons.prems(2) by (rule start_marker_None_append)
      with True ih show ?thesis by simp
    next
      case (Some m)
      obtain ty r where m: "m = (ty, r)" by (cases m)
      with Some True Cons.prems(1) have "match_close 0 r = None" by simp
      then have "match_close 0 (r @ rest) = None"
        using Cons.prems(3) by (rule match_close_unclosed_append)
      moreover have "start_marker (cs @ rest) = Some (ty, r @ rest)"
        using Some m by (simp add: start_marker_Some_append)
      ultimately show ?thesis using True ih by simp
    qed
  qed
qed

lemma no_inner_entry_plain:
  "CHR ''@'' \<notin> set u \<Longrightarrow> no_inner_entry v \<Longrightarrow> no_inner_entry (u @ v)"
  by (induction u) auto

text \<open>An entry whose braces never close is dropped, and the scan goes on inside it.\<close>

lemma parse_unclosed:
  assumes "type_token ty" "no_inner_entry body" "depth_after 0 body = Some d"
          "boundary rest" "depth_after 0 rest = Some e"
  shows "parseBibTeX a (unclosed_text ty body @ rest) = parseBibTeX a rest"
proof -
  have "depth_after 0 (body @ rest) = Some (e + d)"
    using assms(3) depth_after_shift[OF assms(5), of d] by (simp add: depth_after_append)
  then have m: "match_close 0 (body @ rest) = None" by (rule match_close_None)
  have n: "no_inner_entry (ty @ CHR ''{'' # body)"
    using token_no_at[OF assms(1)] assms(2) by (intro no_inner_entry_plain) simp_all
  have "parseBibTeX a (unclosed_text ty body @ rest) =
        parseBibTeX a ((ty @ CHR ''{'' # body) @ rest)"
    using m by (simp add: unclosed_text_def start_marker_token[OF assms(1)])
  also have "\<dots> = parseBibTeX a rest" using n assms(4,5) by (rule skip_no_inner_entry)
  finally show ?thesis .
qed

text \<open>
  C8. Parsing the entry \<^verbatim>\<open>@article{k1, author={A and B}, year={2020}, title={T}}\<close> yields
  exactly one record; its id is \<^verbatim>\<open>k1\<close>, its authors are \<^verbatim>\<open>A\<close> and \<^verbatim>\<open>B\<close> in that order, its
  year is 2020 and its title is \<^verbatim>\<open>T\<close>.
\<close>

theorem parseBibTeX_single_entry:
  "parseBibTeX absent ''@article{k1, author={A and B}, year={2020}, title={T}}'' =
     [\<lparr>pub_id = ''k1'', pub_type = ''article'', title = Some ''T'',
       authors = [\<lparr>name = ''A''\<rparr>, \<lparr>name = ''B''\<rparr>], year = 2020, journal = None,
       conference = None, description = None, abstract = None,
       bibtex = Some ''@article{k1, author={A and B}, year={2020}, title={T}}'',
       hidden_bib = False\<rparr>]"
  by code_simp

text \<open>
  C9, amended. Let an input text consist of one well-formed entry (a type token and a span
  with balanced braces) and one entry missing its closing brace (a type token and a span
  whose braces never close the entry) that holds no complete entry inside it, in either
  order, with text that starts no entry and closes no brace before and between or after
  them. Parsing it yields exactly one record, the record of the well-formed entry, which
  is also what parsing the well-formed entry alone yields. The parser is a total function
  without an error result, so it raises no error.
\<close>

theorem parseBibTeX_one_good_one_unclosed:
  assumes good: "type_token ty1" "depth_after 0 body1 = Some 0"
      and bad: "type_token ty2" "no_inner_entry body2" "depth_after 0 body2 = Some d"
      and gaps: "no_marker pre" "no_marker gap" "depth_after 0 gap = Some e"
  shows "parseBibTeX absent (pre @ entry_text ty1 body1 @ gap @ unclosed_text ty2 body2)
           = [entry_record absent ty1 body1] \<and>
         parseBibTeX absent (pre @ unclosed_text ty2 body2 @ entry_text ty1 body1 @ gap)
           = [entry_record absent ty1 body1] \<and>
         parseBibTeX absent (entry_text ty1 body1) = [entry_record absent ty1 body1]"
proof -
  have b1: "boundary (entry_text ty1 body1 @ r)" for r
    by (simp add: boundary_def entry_text_def not_letter)
  have b2: "boundary (unclosed_text ty2 body2 @ r)" for r
    by (simp add: boundary_def unclosed_text_def not_letter)
  have b0: "boundary []" by (simp add: boundary_def)
  have u: "parseBibTeX absent (unclosed_text ty2 body2) = []"
    using parse_unclosed[OF bad b0, of 0 absent] by simp
  have "parseBibTeX absent (pre @ entry_text ty1 body1 @ gap @ unclosed_text ty2 body2)
        = parseBibTeX absent (entry_text ty1 body1 @ gap @ unclosed_text ty2 body2)"
    using gaps(1) b1 by (rule skip_no_marker)
  also have "\<dots> = entry_record absent ty1 body1 #
                    parseBibTeX absent (gap @ unclosed_text ty2 body2)"
    using good by (rule parse_entry)
  also have "parseBibTeX absent (gap @ unclosed_text ty2 body2) =
             parseBibTeX absent (unclosed_text ty2 body2)"
    using gaps(2) b2[of "[]"] by (simp add: skip_no_marker)
  finally have 1: "parseBibTeX absent (pre @ entry_text ty1 body1 @ gap @ unclosed_text ty2 body2)
                     = [entry_record absent ty1 body1]"
    using u by simp
  have dd: "depth_after 0 (entry_text ty1 body1 @ gap) = Some e"
    using gaps(3) depth_entry[OF good] by (simp add: depth_after_append)
  have "parseBibTeX absent (pre @ unclosed_text ty2 body2 @ entry_text ty1 body1 @ gap)
        = parseBibTeX absent (unclosed_text ty2 body2 @ entry_text ty1 body1 @ gap)"
    using gaps(1) b2 by (rule skip_no_marker)
  also have "\<dots> = parseBibTeX absent (entry_text ty1 body1 @ gap)"
    using bad b1 dd by (rule parse_unclosed)
  also have "\<dots> = entry_record absent ty1 body1 # parseBibTeX absent gap"
    using good by (rule parse_entry)
  also have "parseBibTeX absent gap = []"
    using skip_no_marker[OF gaps(2) b0, of absent] by simp
  finally have 2: "parseBibTeX absent (pre @ unclosed_text ty2 body2 @ entry_text ty1 body1 @ gap)
                     = [entry_record absent ty1 body1]"
    by simp
  have 3: "parseBibTeX absent (entry_text ty1 body1) = [entry_record absent ty1 body1]"
    using parse_entry[OF good, of absent "[]"] by simp
  from 1 2 3 show ?thesis by blast
qed

text \<open>
  The entry of C8 and a book entry that misses three closing braces, with a comment line in
  front and a line break between or after them, in both orders. The book entry holds an
  \<^verbatim>\<open>@\<close> that starts no entry and an \<^verbatim>\<open>@misc\<close> whose braces do not close.
\<close>

theorem parseBibTeX_one_good_one_unclosed_witness:
  "parseBibTeX 0 (''% my papers'' @ [CHR 0x0A] @ good_entry @ [CHR 0x0A] @ bad_entry) = [k1_record] \<and>
   parseBibTeX 0 (''% my papers'' @ [CHR 0x0A] @ bad_entry @ good_entry @ [CHR 0x0A]) = [k1_record] \<and>
   length (parseBibTeX 0 (''% my papers'' @ [CHR 0x0A] @ bad_entry @ good_entry @ [CHR 0x0A])) = 1"
proof -
  let ?body1 = "''k1, author={A and B}, year={2020}, title={T}''"
  let ?body2 = "''k2, note={mail c@d.org, see @misc{k3, title={X''"
  have g: "type_token ''article''" "depth_after 0 ?body1 = Some 0" by code_simp+
  have b: "type_token ''book''" "no_inner_entry ?body2" "depth_after 0 ?body2 = Some 3"
    by code_simp+
  have p: "no_marker (''% my papers'' @ [CHR 0x0A])" "no_marker [CHR 0x0A]"
          "depth_after 0 [CHR 0x0A] = Some 0" by code_simp+
  have r: "entry_record 0 ''article'' ?body1 = k1_record" by code_simp
  have t: "entry_text ''article'' ?body1 = good_entry" "unclosed_text ''book'' ?body2 = bad_entry"
    by (simp_all add: entry_text_def unclosed_text_def good_entry_def bad_entry_def)
  from parseBibTeX_one_good_one_unclosed[OF g b p, of 0] show ?thesis
    by (simp only: r t append_assoc list.size One_nat_def add_0)
qed

text \<open>
  C9 as stated fails on a malformed entry that holds a complete entry inside it: the scan
  goes on inside the entry that never closes, finds the inner \<^verbatim>\<open>@misc{foo}\<close> and emits it, so
  the text yields two records, one of them cut from the malformed entry.
\<close>

theorem parseBibTeX_nested_counterexample:
  "nested_entry = unclosed_text ''book'' ''k2, note={see @misc{foo}}, title={X'' \<and>
   type_token ''book'' \<and>
   depth_after 0 ''k2, note={see @misc{foo}}, title={X'' = Some 1 \<and>
   map pub_id (parseBibTeX 0 (good_entry @ [CHR 0x0A] @ nested_entry)) = [''k1'', ''foo''] \<and>
   length (parseBibTeX 0 (good_entry @ [CHR 0x0A] @ nested_entry)) = 2"
  by code_simp

end
